theory Spec2Isabelle
  imports Complex_Main
begin

section \<open>Python values used by the generator\<close>

text \<open>
  A Python \<open>str\<close> is a sequence of Unicode code points, so a designation is a list of
  code points (\<open>len\<close> counts code points, not bytes). The literal \<open>"2412"\<close> is
  \<open>[50, 52, 49, 50]\<close>. Python's \<open>float\<close> and numpy's \<open>float64\<close> arrays are
  idealised as \<open>real\<close> and \<open>real list\<close>: rounding is not part of this model, except
  for the products of lines 92 to 95, whose float64 rounding \<open>scale64\<close> models on its own.
  Every exception of the source is a value of type \<open>error\<close>; the text of a
  message that quotes the offending value is cut before the quotation.
\<close>

type_synonym pystr = "nat list"

datatype error = ValueError string | IndexError string

subsection \<open>\<open>str.isdigit\<close> and \<open>int\<close> on digit strings\<close>

text \<open>
  Unicode 14.0 (the database of CPython 3.11). Every character with a decimal value
  belongs to a run of ten consecutive code points that starts at the character of value
  zero; \<open>decimal_zeros\<close> lists those starting points. \<open>digit_only_ranges\<close> lists the
  characters that are digits for \<open>str.isdigit\<close> but have no decimal value
  (superscripts, circled digits and the like): \<open>int\<close> refuses them.
\<close>

definition decimal_zeros :: "nat list" where
  "decimal_zeros =
    [48, 1632, 1776, 1984, 2406, 2534, 2662, 2790, 2918, 3046,
     3174, 3302, 3430, 3558, 3664, 3792, 3872, 4160, 4240, 6112,
     6160, 6470, 6608, 6784, 6800, 6992, 7088, 7232, 7248, 42528,
     43216, 43264, 43472, 43504, 43600, 44016, 65296, 66720, 68912, 69734,
     69872, 69942, 70096, 70384, 70736, 70864, 71248, 71360, 71472, 71904,
     72016, 72784, 73040, 73120, 92768, 92864, 93008, 120782, 120792, 120802,
     120812, 120822, 123200, 123632, 125264, 130032]"

definition digit_only_ranges :: "(nat \<times> nat) list" where
  "digit_only_ranges =
    [(178, 179), (185, 185), (4969, 4977), (6618, 6618), (8304, 8304),
     (8308, 8313), (8320, 8329), (9312, 9320), (9332, 9340), (9352, 9360),
     (9450, 9450), (9461, 9469), (9471, 9471), (10102, 10110), (10112, 10120),
     (10122, 10130), (68160, 68163), (69216, 69224), (69714, 69722), (127232, 127242)]"

definition decimal_value :: "nat \<Rightarrow> nat option" where
  "decimal_value c =
     (case find (\<lambda>z. z \<le> c \<and> c < z + 10) decimal_zeros of
        None \<Rightarrow> None
      | Some z \<Rightarrow> Some (c - z))"

definition isdigit_char :: "nat \<Rightarrow> bool" where
  "isdigit_char c \<longleftrightarrow>
     decimal_value c \<noteq> None \<or> list_ex (\<lambda>(lo, hi). lo \<le> c \<and> c \<le> hi) digit_only_ranges"

text \<open>\<open>s.isdigit()\<close>: at least one character, and every character a digit.\<close>

definition str_isdigit :: "pystr \<Rightarrow> bool" where
  "str_isdigit s \<longleftrightarrow> s \<noteq> [] \<and> list_all isdigit_char s"

text \<open>
  \<open>int(s)\<close> on the strings the parser passes to it: non-empty, without sign, blank or
  underscore. A character without a decimal value makes the literal invalid.
\<close>

fun digits_value :: "pystr \<Rightarrow> int \<Rightarrow> int option" where
  "digits_value [] acc = Some acc"
| "digits_value (c # cs) acc =
     (case decimal_value c of
        None \<Rightarrow> None
      | Some d \<Rightarrow> digits_value cs (10 * acc + int d))"

definition py_int :: "pystr \<Rightarrow> error + int" where
  "py_int s =
     (case (if s = [] then None else digits_value s 0) of
        None \<Rightarrow> Inl (ValueError ''invalid literal for int() with base 10'')
      | Some v \<Rightarrow> Inr v)"

subsection \<open>numpy arrays as lists\<close>

text \<open>
  \<open>np.linspace(start, stop, num)\<close> with the default \<open>endpoint=True\<close>: a negative
  \<open>num\<close> raises, otherwise the samples are \<open>i * step + start\<close> and the last
  one is overwritten with \<open>stop\<close> when there is more than one.
\<close>

definition linspace :: "real \<Rightarrow> real \<Rightarrow> int \<Rightarrow> error + real list" where
  "linspace start stop num =
     (if num < 0 then Inl (ValueError ''Number of samples must be non-negative'')
      else
        let n = nat num;
            dv = num - 1;
            delta = stop - start;
            y = map real [0..<n];
            y = (if dv > 0 then
                   let step = delta / real_of_int dv in
                   if step = 0 then map (\<lambda>v. v / real_of_int dv * delta) y
                   else map (\<lambda>v. v * step) y
                 else map (\<lambda>v. v * delta) y);
            y = map (\<lambda>v. v + start) y
        in Inr (if num > 1 then y[n - 1 := stop] else y))"

definition zeros_like :: "real list \<Rightarrow> real list" where
  "zeros_like a = replicate (length a) 0"

text \<open>\<open>a[mask]\<close>: the elements of \<open>a\<close> where the mask holds.\<close>

fun mask_select :: "'a list \<Rightarrow> bool list \<Rightarrow> 'a list" where
  "mask_select (v # vs) (b # bs) = (if b then v # mask_select vs bs else mask_select vs bs)"
| "mask_select _ _ = []"

text \<open>\<open>a[mask] = vals\<close>: the values go, in order, to the positions where the mask holds.\<close>

fun mask_assign :: "'a list \<Rightarrow> bool list \<Rightarrow> 'a list \<Rightarrow> 'a list" where
  "mask_assign (a # as) (True # bs) (v # vs) = v # mask_assign as bs vs"
| "mask_assign (a # as) (False # bs) vs = a # mask_assign as bs vs"
| "mask_assign as _ _ = as"

text \<open>Elementwise arithmetic of two arrays of one shape.\<close>

definition arr_add :: "real list \<Rightarrow> real list \<Rightarrow> real list" where
  "arr_add a b = map2 (+) a b"

definition arr_sub :: "real list \<Rightarrow> real list \<Rightarrow> real list" where
  "arr_sub a b = map2 (-) a b"

definition arr_mul :: "real list \<Rightarrow> real list \<Rightarrow> real list" where
  "arr_mul a b = map2 (*) a b"

section \<open>The designation parser\<close>

text \<open>\<open>parse_naca_4digit\<close>, lines 19 to 36 of \<open>naca_airfoil_generator.py\<close>.\<close>

definition parse_naca_4digit :: "pystr \<Rightarrow> error + (int \<times> int \<times> int)" where
  "parse_naca_4digit naca_string =
     (if length naca_string \<noteq> 4 \<or> \<not> str_isdigit naca_string
      then Inl (ValueError ''NACA designation must be exactly 4 digits'')
      else
        case py_int [naca_string ! 0] of
          Inl e \<Rightarrow> Inl e
        | Inr max_camber_percent \<Rightarrow>
        (case py_int [naca_string ! 1] of
          Inl e \<Rightarrow> Inl e
        | Inr max_camber_position \<Rightarrow>
        (case py_int (drop 2 naca_string) of
          Inl e \<Rightarrow> Inl e
        | Inr thickness_percent \<Rightarrow>
            Inr (max_camber_percent, max_camber_position, thickness_percent))))"

section \<open>The surface generator\<close>

text \<open>
  \<open>naca_4digit_coordinates\<close>, lines 39 to 97, in the order of the source. The scalar
  formulas that the source applies to whole arrays are named first.
\<close>

text \<open>Line 63, one station.\<close>

definition half_thickness :: "real \<Rightarrow> real \<Rightarrow> real" where
  "half_thickness t x =
     5 * t * (0.2969 * sqrt x - 0.1260 * x - 0.3516 * x\<^sup>2 + 0.2843 * x ^ 3 - 0.1015 * x ^ 4)"

text \<open>Lines 72 and 73: forward of the maximum camber.\<close>

definition camber_fwd :: "real \<Rightarrow> real \<Rightarrow> real \<Rightarrow> real" where
  "camber_fwd m p x = (m / p\<^sup>2) * (2 * p * x - x\<^sup>2)"

definition slope_fwd :: "real \<Rightarrow> real \<Rightarrow> real \<Rightarrow> real" where
  "slope_fwd m p x = (2 * m / p\<^sup>2) * (p - x)"

text \<open>Lines 77 and 78: aft of the maximum camber.\<close>

definition camber_aft :: "real \<Rightarrow> real \<Rightarrow> real \<Rightarrow> real" where
  "camber_aft m p x = (m / (1 - p)\<^sup>2) * ((1 - 2 * p) + 2 * p * x - x\<^sup>2)"

definition slope_aft :: "real \<Rightarrow> real \<Rightarrow> real \<Rightarrow> real" where
  "slope_aft m p x = (2 * m / (1 - p)\<^sup>2) * (p - x)"

text \<open>Lines 59 and 60: cosine spacing.\<close>

definition stations :: "int \<Rightarrow> error + real list" where
  "stations num_points =
     (case linspace 0 pi num_points of
        Inl e \<Rightarrow> Inl e
      | Inr beta \<Rightarrow> Inr (map (\<lambda>b. (1 - cos b) / 2) beta))"

text \<open>Line 63.\<close>

definition thickness_distribution :: "real \<Rightarrow> real list \<Rightarrow> real list" where
  "thickness_distribution t x = map (half_thickness t) x"

text \<open>Lines 66 to 78: the camber line \<open>yc\<close> and its slope \<open>dyc_dx\<close>.\<close>

definition camber_line :: "real \<Rightarrow> real \<Rightarrow> real list \<Rightarrow> real list \<times> real list" where
  "camber_line m p x =
     (let yc = zeros_like x;
          dyc_dx = zeros_like x
      in if m > 0 \<and> p > 0 then
           let mask1 = map (\<lambda>v. v \<le> p) x;
               yc = mask_assign yc mask1 (map (camber_fwd m p) (mask_select x mask1));
               dyc_dx = mask_assign dyc_dx mask1 (map (slope_fwd m p) (mask_select x mask1));
               mask2 = map (\<lambda>v. v > p) x;
               yc = mask_assign yc mask2 (map (camber_aft m p) (mask_select x mask2));
               dyc_dx = mask_assign dyc_dx mask2 (map (slope_aft m p) (mask_select x mask2))
           in (yc, dyc_dx)
         else (yc, dyc_dx))"

text \<open>
  Lines 81 to 97: offset along the normal, then scaling by the chord. The products of
  lines 92 to 95 are exact here; \<open>scale64\<close> below is their float64 reading.
\<close>

definition surfaces ::
  "real list \<Rightarrow> real list \<Rightarrow> real list \<Rightarrow> real list \<Rightarrow> real \<Rightarrow>
   real list \<times> real list \<times> real list \<times> real list" where
  "surfaces x yt yc dyc_dx chord_length_mm =
     (let theta = map arctan dyc_dx;
          xu = arr_sub x (arr_mul yt (map sin theta));
          yu = arr_add yc (arr_mul yt (map cos theta));
          xl = arr_add x (arr_mul yt (map sin theta));
          yl = arr_sub yc (arr_mul yt (map cos theta));
          xu = map (\<lambda>v. v * chord_length_mm) xu;
          yu = map (\<lambda>v. v * chord_length_mm) yu;
          xl = map (\<lambda>v. v * chord_length_mm) xl;
          yl = map (\<lambda>v. v * chord_length_mm) yl
      in (xu, yu, xl, yl))"

text \<open>Lines 53 to 97: everything after the parse, from the three decoded integers.\<close>

definition coordinates_of_params ::
  "int \<Rightarrow> int \<Rightarrow> int \<Rightarrow> real \<Rightarrow> int \<Rightarrow>
   error + (real list \<times> real list \<times> real list \<times> real list)" where
  "coordinates_of_params m0 p0 t0 chord_length_mm num_points =
     (let m = real_of_int m0 / 100;
          p = real_of_int p0 / 10;
          t = real_of_int t0 / 100
      in case stations num_points of
           Inl e \<Rightarrow> Inl e
         | Inr x \<Rightarrow>
             let yt = thickness_distribution t x;
                 (yc, dyc_dx) = camber_line m p x
             in Inr (surfaces x yt yc dyc_dx chord_length_mm))"

definition naca_4digit_coordinates ::
  "pystr \<Rightarrow> real \<Rightarrow> int \<Rightarrow> error + (real list \<times> real list \<times> real list \<times> real list)" where
  "naca_4digit_coordinates naca_designation chord_length_mm num_points =
     (case parse_naca_4digit naca_designation of
        Inl e \<Rightarrow> Inl e
      | Inr (m, p, t) \<Rightarrow> coordinates_of_params m p t chord_length_mm num_points)"

subsection \<open>Lines 92 to 95 in float64\<close>

text \<open>
  \<open>xu *= chord_length_mm\<close> multiplies a float64 array by a Python float: each element
  becomes the product rounded once to binary64, to the nearest value with ties to the even
  significand. A binary64 number has a significand of 53 bits and a binary exponent from
  \<open>-1022\<close> to 1023; below \<open>2 powi (- 1022)\<close> the numbers are subnormal and share the
  last place \<open>2 powi (- 1074)\<close>. A rounded magnitude of \<open>2 powi 1024\<close> or more is an
  infinity, which is \<open>None\<close> here; the sign of a zero is not represented.
\<close>

text \<open>Rounding to the nearest integer, ties to the even one.\<close>

definition rne :: "real \<Rightarrow> int" where
  "rne r =
     (let f = \<lfloor>r\<rfloor> in
      if r - of_int f < 1 / 2 then f
      else if r - of_int f > 1 / 2 then f + 1
      else if even f then f else f + 1)"

text \<open>The exponent of the last place of the binary64 numbers of the magnitude of \<open>x\<close>.\<close>

definition ulp_exponent :: "real \<Rightarrow> int" where
  "ulp_exponent x = max \<lfloor>log 2 \<bar>x\<bar>\<rfloor> (- 1022) - 52"

definition fl64 :: "real \<Rightarrow> real option" where
  "fl64 x =
     (if x = 0 then Some 0
      else
        let r = of_int (rne (x / 2 powi ulp_exponent x)) * 2 powi ulp_exponent x
        in if \<bar>r\<bar> \<ge> 2 powi 1024 then None else Some r)"

text \<open>One of the four lines 92 to 95, on the array \<open>a\<close> that the lines before left.\<close>

definition scale64 :: "real list \<Rightarrow> real \<Rightarrow> real option list" where
  "scale64 a chord_length_mm = map (\<lambda>v. fl64 (v * chord_length_mm)) a"

section \<open>The DXF writer and the command line\<close>

text \<open>
  The drawing is the list of entities added to the model space, in order. The label keeps
  the designation and the chord it is formatted from; file names and console output are
  not part of the model.
\<close>

datatype entity =
    LWPolyline "(real \<times> real) list" bool
  | Line "real \<times> real" "real \<times> real"
  | Text pystr real real "real \<times> real"

text \<open>Lines 127 and 131: the tests that decide whether a closing segment is drawn.\<close>

definition leading_edge_open :: "real list \<Rightarrow> real list \<Rightarrow> real list \<Rightarrow> real list \<Rightarrow> bool" where
  "leading_edge_open xu yu xl yl \<longleftrightarrow>
     \<bar>hd xu - hd xl\<bar> > 0.001 \<or> \<bar>hd yu - hd yl\<bar> > 0.001"

definition trailing_edge_open :: "real list \<Rightarrow> real list \<Rightarrow> real list \<Rightarrow> real list \<Rightarrow> bool" where
  "trailing_edge_open xu yu xl yl \<longleftrightarrow>
     \<bar>last xu - last xl\<bar> > 0.001 \<or> \<bar>last yu - last yl\<bar> > 0.001"

text \<open>
  \<open>create_dxf_airfoil\<close>, lines 100 to 152. Indexing an empty array (no points at all)
  raises \<open>IndexError\<close> at line 127.
\<close>

definition create_dxf_airfoil :: "pystr \<Rightarrow> real \<Rightarrow> int \<Rightarrow> error + entity list" where
  "create_dxf_airfoil naca_designation chord_length_mm num_points =
     (case naca_4digit_coordinates naca_designation chord_length_mm num_points of
        Inl e \<Rightarrow> Inl e
      | Inr (xu, yu, xl, yl) \<Rightarrow>
          let upper_points = zip xu yu;
              msp = [LWPolyline upper_points False];
              lower_points = zip (rev xl) (rev yl);
              msp = msp @ [LWPolyline lower_points False]
          in if xu = [] \<or> xl = [] \<or> yu = [] \<or> yl = []
             then Inl (IndexError ''index 0 is out of bounds for axis 0 with size 0'')
             else
               let msp = (if leading_edge_open xu yu xl yl
                          then msp @ [Line (hd xu, hd yu) (hd xl, hd yl)] else msp);
                   msp = (if trailing_edge_open xu yu xl yl
                          then msp @ [Line (last xu, last yu) (last xl, last yl)] else msp);
                   msp = msp @ [Text naca_designation chord_length_mm
                                  (chord_length_mm * 0.05)
                                  (chord_length_mm * 0.1, chord_length_mm * 0.2)]
               in Inr msp)"

text \<open>
  \<open>main\<close>, lines 178 to 198: the body of the \<open>try\<close> block on the parsed arguments.
  An \<open>Inl\<close> is the error that the handler prints before it exits with status 1.
\<close>

record args =
  naca :: pystr
  chord :: real
  num_points :: int

definition main :: "args \<Rightarrow> error + entity list" where
  "main a =
     (if chord a \<le> 0 then Inl (ValueError ''Chord length must be positive'')
      else if num_points a < 10 then Inl (ValueError ''Number of points must be at least 10'')
      else create_dxf_airfoil (naca a) (chord a) (num_points a))"

section \<open>Notions used to state the properties\<close>

text \<open>The ten ASCII digits \<open>0\<close> to \<open>9\<close>.\<close>

definition ascii_digit :: "nat \<Rightarrow> bool" where
  "ascii_digit c \<longleftrightarrow> 48 \<le> c \<and> c \<le> 57"

text \<open>
  The re-encoding that the round-trip law of the specification names (the source has no
  such function): the camber as one digit, the camber position as one digit, the thickness
  as a two-digit number.
\<close>

definition spec_encode :: "int \<times> int \<times> int \<Rightarrow> pystr" where
  "spec_encode prm =
     (case prm of (m, p, t) \<Rightarrow>
        [48 + nat m, 48 + nat p, 48 + nat (t div 10), 48 + nat (t mod 10)])"

text \<open>
  The values that lines 66 to 78 leave in \<open>yc\<close> and \<open>dyc_dx\<close> at one station, and the
  four coordinates that lines 81 to 95 compute from one station.
\<close>

definition camber_at :: "real \<Rightarrow> real \<Rightarrow> real \<Rightarrow> real" where
  "camber_at m p v =
     (if m > 0 \<and> p > 0 then (if v \<le> p then camber_fwd m p v else camber_aft m p v) else 0)"

definition slope_at :: "real \<Rightarrow> real \<Rightarrow> real \<Rightarrow> real" where
  "slope_at m p v =
     (if m > 0 \<and> p > 0 then (if v \<le> p then slope_fwd m p v else slope_aft m p v) else 0)"

definition upper_x :: "real \<Rightarrow> real \<Rightarrow> real \<Rightarrow> real \<Rightarrow> real \<Rightarrow> real" where
  "upper_x m p t c v = (v - half_thickness t v * sin (arctan (slope_at m p v))) * c"

definition upper_y :: "real \<Rightarrow> real \<Rightarrow> real \<Rightarrow> real \<Rightarrow> real \<Rightarrow> real" where
  "upper_y m p t c v = (camber_at m p v + half_thickness t v * cos (arctan (slope_at m p v))) * c"

definition lower_x :: "real \<Rightarrow> real \<Rightarrow> real \<Rightarrow> real \<Rightarrow> real \<Rightarrow> real" where
  "lower_x m p t c v = (v + half_thickness t v * sin (arctan (slope_at m p v))) * c"

definition lower_y :: "real \<Rightarrow> real \<Rightarrow> real \<Rightarrow> real \<Rightarrow> real \<Rightarrow> real" where
  "lower_y m p t c v = (camber_at m p v - half_thickness t v * cos (arctan (slope_at m p v))) * c"

text \<open>Station \<open>i\<close> of a cosine spacing whose last index is \<open>N\<close>.\<close>

definition station :: "nat \<Rightarrow> nat \<Rightarrow> real" where
  "station N i = (1 - cos (real i * pi / real N)) / 2"

section \<open>The parser: lemmas\<close>

lemma decimal_value_ascii:
  "48 \<le> c \<Longrightarrow> c \<le> 57 \<Longrightarrow> decimal_value c = Some (c - 48)"
  by (simp add: decimal_value_def decimal_zeros_def)

lemma decimal_value_below_128:
  "c < 128 \<Longrightarrow> decimal_value c \<noteq> None \<longleftrightarrow> 48 \<le> c \<and> c \<le> 57"
  by (auto simp: decimal_value_def decimal_zeros_def)

lemma length_4_cases:
  "length s = 4 \<Longrightarrow> \<exists>a b c d. s = [a, b, c, d]"
  by (auto simp: length_Suc_conv numeral_eq_Suc)

text \<open>The parser on a string of four characters, by the decimal values of the four.\<close>

lemma parse_4:
  "parse_naca_4digit [a, b, c, d] =
     (case (decimal_value a, decimal_value b, decimal_value c, decimal_value d) of
        (Some m, Some p, Some t1, Some t0) \<Rightarrow> Inr (int m, int p, 10 * int t1 + int t0)
      | _ \<Rightarrow> Inl (if list_all isdigit_char [a, b, c, d]
                 then ValueError ''invalid literal for int() with base 10''
                 else ValueError ''NACA designation must be exactly 4 digits''))"
  by (auto simp: parse_naca_4digit_def str_isdigit_def py_int_def isdigit_char_def
      split: option.splits)

lemma parse_wrong_length:
  "length s \<noteq> 4 \<Longrightarrow>
     parse_naca_4digit s = Inl (ValueError ''NACA designation must be exactly 4 digits'')"
  by (simp add: parse_naca_4digit_def)

lemma parse_isl_iff:
  "isl (parse_naca_4digit s) \<longleftrightarrow>
     \<not> (length s = 4 \<and> (\<forall>c\<in>set s. decimal_value c \<noteq> None))"
proof (cases "length s = 4")
  case False
  then show ?thesis by (simp add: parse_wrong_length)
next
  case True
  then obtain a b c d where s: "s = [a, b, c, d]"
    using length_4_cases by blast
  show ?thesis
    unfolding s parse_4 by (auto split: option.splits)
qed

lemma py_int_error:
  "py_int s = Inl e \<Longrightarrow> e = ValueError ''invalid literal for int() with base 10''"
  by (auto simp: py_int_def split: option.splits if_splits)

lemma parse_error_kind:
  assumes "parse_naca_4digit s = Inl e"
  shows "e = ValueError ''NACA designation must be exactly 4 digits'' \<or>
         e = ValueError ''invalid literal for int() with base 10''"
  using assms
  by (auto simp: parse_naca_4digit_def split: if_splits sum.splits dest: py_int_error)

lemma spec_encode_digits:
  assumes "t0 < 10"
  shows "spec_encode (int m, int p, 10 * int t1 + int t0) = [48 + m, 48 + p, 48 + t1, 48 + t0]"
proof -
  have "(10 * int t1 + int t0) div 10 = int t1" "(10 * int t1 + int t0) mod 10 = int t0"
    using assms by simp_all
  then show ?thesis
    by (simp add: spec_encode_def)
qed

lemma parse_0012: "parse_naca_4digit [48, 48, 49, 50] = Inr (0, 0, 12)"
  by (simp add: parse_4 decimal_value_ascii)

lemma parse_2412: "parse_naca_4digit [50, 52, 49, 50] = Inr (2, 4, 12)"
  by (simp add: parse_4 decimal_value_ascii)

section \<open>The parser: properties\<close>

text \<open>
  C2. For every string of exactly four ASCII digits the parser succeeds, and re-encoding
  the three numbers it returns (one digit, one digit, two digits) gives the string back.
\<close>

theorem parse_roundtrip:
  assumes "length s = 4" and "\<forall>c\<in>set s. ascii_digit c"
  shows "\<exists>prm. parse_naca_4digit s = Inr prm \<and> spec_encode prm = s"
proof -
  from assms(1) obtain a b c d where s: "s = [a, b, c, d]"
    using length_4_cases by blast
  with assms(2) have r: "48 \<le> a" "a \<le> 57" "48 \<le> b" "b \<le> 57"
      "48 \<le> c" "c \<le> 57" "48 \<le> d" "d \<le> 57"
    by (simp_all add: ascii_digit_def)
  have "spec_encode (int (a - 48), int (b - 48), 10 * int (c - 48) + int (d - 48)) = s"
    unfolding s using r by (subst spec_encode_digits) simp_all
  then show ?thesis
    unfolding s parse_4 using r
    by (simp add: decimal_value_ascii)
qed

theorem parse_roundtrip_witness:
  "length [50, 52, 49, 50 :: nat] = 4 \<and> list_all ascii_digit [50, 52, 49, 50] \<and>
   (\<exists>prm. parse_naca_4digit [50, 52, 49, 50] = Inr prm \<and> spec_encode prm = [50, 52, 49, 50])"
proof -
  have h1: "length [50, 52, 49, 50 :: nat] = 4"
    by simp
  have h2: "\<forall>c\<in>set [50, 52, 49, 50]. ascii_digit c"
    by (simp add: ascii_digit_def)
  show ?thesis
    using h1 h2 parse_roundtrip [OF h1 h2] by (simp add: list_all_iff)
qed

text \<open>
  C3, as the code has it. The parser fails exactly when the string is not made of four
  characters that each have a decimal value; on strings of ASCII characters that is
  exactly when it is not made of four ASCII digits. Every failure is a \<open>ValueError\<close>
  and returns no parameters. \<open>"241"\<close>, \<open>"24123"\<close> and \<open>"24a2"\<close> fail with the
  parser's own message; four digit characters of which one has no decimal value, such as
  the superscript two \<open>U+00B2\<close>, pass the parser's check and fail in \<open>int\<close>.
\<close>

theorem parse_fails_iff:
  "(isl (parse_naca_4digit s) \<longleftrightarrow>
      \<not> (length s = 4 \<and> (\<forall>c\<in>set s. decimal_value c \<noteq> None))) \<and>
   ((\<forall>c\<in>set s. c < 128) \<longrightarrow>
      (isl (parse_naca_4digit s) \<longleftrightarrow> \<not> (length s = 4 \<and> (\<forall>c\<in>set s. ascii_digit c)))) \<and>
   (isl (parse_naca_4digit s) \<longrightarrow> (\<exists>msg. parse_naca_4digit s = Inl (ValueError msg))) \<and>
   parse_naca_4digit [50, 52, 49] =
      Inl (ValueError ''NACA designation must be exactly 4 digits'') \<and>
   parse_naca_4digit [50, 52, 49, 50, 51] =
      Inl (ValueError ''NACA designation must be exactly 4 digits'') \<and>
   parse_naca_4digit [50, 52, 97, 50] =
      Inl (ValueError ''NACA designation must be exactly 4 digits'') \<and>
   parse_naca_4digit [178, 52, 49, 50] =
      Inl (ValueError ''invalid literal for int() with base 10'')"
proof (intro conjI)
  show "isl (parse_naca_4digit s) \<longleftrightarrow>
      \<not> (length s = 4 \<and> (\<forall>c\<in>set s. decimal_value c \<noteq> None))"
    by (rule parse_isl_iff)
  show "(\<forall>c\<in>set s. c < 128) \<longrightarrow>
      (isl (parse_naca_4digit s) \<longleftrightarrow> \<not> (length s = 4 \<and> (\<forall>c\<in>set s. ascii_digit c)))"
    unfolding parse_isl_iff ascii_digit_def
    using decimal_value_below_128 by blast
  show "isl (parse_naca_4digit s) \<longrightarrow> (\<exists>msg. parse_naca_4digit s = Inl (ValueError msg))"
    using parse_error_kind [of s] by (cases "parse_naca_4digit s") auto
  show "parse_naca_4digit [50, 52, 49] =
      Inl (ValueError ''NACA designation must be exactly 4 digits'')"
    by (simp add: parse_wrong_length)
  show "parse_naca_4digit [50, 52, 49, 50, 51] =
      Inl (ValueError ''NACA designation must be exactly 4 digits'')"
    by (simp add: parse_wrong_length)
  show "parse_naca_4digit [50, 52, 97, 50] =
      Inl (ValueError ''NACA designation must be exactly 4 digits'')"
    by (simp add: parse_4 decimal_value_def decimal_zeros_def isdigit_char_def
        digit_only_ranges_def)
  show "parse_naca_4digit [178, 52, 49, 50] =
      Inl (ValueError ''invalid literal for int() with base 10'')"
    by (simp add: parse_4 decimal_value_def decimal_zeros_def isdigit_char_def
        digit_only_ranges_def)
qed

theorem parse_fails_iff_witness:
  "list_all (\<lambda>c. c < 128) [50, 52, 97, 50 :: nat] \<and>
   isl (parse_naca_4digit [50, 52, 97, 50]) \<and>
   \<not> (length [50, 52, 97, 50 :: nat] = 4 \<and> list_all ascii_digit [50, 52, 97, 50])"
  using parse_fails_iff [of "[50, 52, 97, 50]"]
  by (simp add: ascii_digit_def)

text \<open>
  The four Arabic-Indic digits \<open>U+0662 U+0664 U+0661 U+0662\<close> are not ASCII, and the
  parser decodes them like \<open>"2412"\<close>.
\<close>

theorem parse_accepts_non_ascii_digits:
  "parse_naca_4digit [1634, 1636, 1633, 1634] = Inr (2, 4, 12)"
  by (simp add: parse_4 decimal_value_def decimal_zeros_def)

section \<open>The generator: lemmas\<close>

lemma parse_2012: "parse_naca_4digit [50, 48, 49, 50] = Inr (2, 0, 12)"
  by (simp add: parse_4 decimal_value_ascii)


subsection \<open>Cosine spacing\<close>

text \<open>
  From two points on, the angles are \<open>i * pi / (n - 1)\<close>; overwriting the last one with
  \<open>pi\<close> changes nothing over the reals.
\<close>

lemma linspace_length:
  "0 \<le> num \<Longrightarrow> \<exists>ys. linspace a b num = Inr ys \<and> length ys = nat num"
  by (simp add: linspace_def Let_def)

lemma linspace_0_pi:
  assumes "2 \<le> num"
  shows "linspace 0 pi num = Inr (map (\<lambda>i. real i * pi / real (nat num - 1)) [0..<nat num])"
proof -
  let ?N = "nat num - 1"
  have N: "0 < real ?N"
    using assms by simp
  let ?y = "map (\<lambda>i. real i * pi / real ?N) [0..<nat num]"
  have last: "?y ! ?N = pi"
    using assms N by simp
  have "linspace 0 pi num = Inr (?y[?N := pi])"
    using assms
    by (simp add: linspace_def Let_def o_def)
  also have "?y[?N := pi] = ?y"
    using last by (metis list_update_id)
  finally show ?thesis .
qed

lemma stations_eq:
  "2 \<le> num \<Longrightarrow> stations num = Inr (map (station (nat num - 1)) [0..<nat num])"
  by (simp add: stations_def linspace_0_pi station_def o_def)

lemma station_first: "station N 0 = 0"
  by (simp add: station_def)

lemma station_last: "0 < N \<Longrightarrow> station N N = 1"
  by (simp add: station_def)

lemma station_range:
  "0 \<le> station N i \<and> station N i \<le> 1"
proof -
  have "-1 \<le> cos (real i * pi / real N)" "cos (real i * pi / real N) \<le> 1"
    by simp_all
  then show ?thesis
    unfolding station_def by simp
qed

lemma station_mono:
  assumes "i \<le> j" and "j \<le> N"
  shows "station N i \<le> station N j"
proof (cases "N = 0")
  case True
  with assms show ?thesis by simp
next
  case False
  then have N: "0 < real N" by simp
  have a: "0 \<le> real i * pi / real N"
    by simp
  have b: "real i * pi / real N \<le> real j * pi / real N"
    using assms(1) N by (simp add: divide_right_mono mult_right_mono)
  have "real j * pi \<le> real N * pi"
    using assms(2) by (simp add: mult_right_mono)
  then have c: "real j * pi / real N \<le> pi"
    using N by (simp add: pos_divide_le_eq mult.commute)
  have "cos (real j * pi / real N) \<le> cos (real i * pi / real N)"
    using a b c by (rule cos_monotone_0_pi_le)
  then show ?thesis
    unfolding station_def by simp
qed

lemma station_interior:
  assumes "0 < i" and "i < N"
  shows "0 < station N i \<and> station N i < 1"
proof -
  have N: "0 < real N" using assms by simp
  let ?b = "real i * pi / real N"
  have a: "0 < ?b"
    using assms N by simp
  have "real i * pi < real N * pi"
    using assms(2) by simp
  then have c: "?b < pi"
    using N by (simp add: pos_divide_less_eq mult.commute)
  have "cos ?b < cos 0"
    using a c by (intro cos_monotone_0_pi) simp_all
  moreover have "cos pi < cos ?b"
    using a c by (intro cos_monotone_0_pi) simp_all
  ultimately show ?thesis
    unfolding station_def by simp
qed

lemma stations_sorted:
  "sorted (map (station N) [0..<Suc N])"
  by (auto simp: sorted_iff_nth_mono station_mono simp del: upt_Suc)

subsection \<open>Arrays, station by station\<close>

text \<open>
  A masked assignment whose mask and values come from one array is a choice made at each
  element, so the camber arrays and the four surfaces are maps over the stations.
\<close>

lemma mask_assign_map:
  "mask_assign (map g xs) (map P xs) (map f (mask_select xs (map P xs))) =
     map (\<lambda>v. if P v then f v else g v) xs"
  by (induction xs) simp_all

lemma zeros_like_map: "zeros_like x = map (\<lambda>v. 0) x"
  by (simp add: zeros_like_def map_replicate_const)

lemma camber_line_pointwise:
  "camber_line m p x = (map (camber_at m p) x, map (slope_at m p) x)"
proof (cases "m > 0 \<and> p > 0")
  case False
  then show ?thesis
    by (cases "0 < m") (simp_all add: camber_line_def Let_def zeros_like_map camber_at_def slope_at_def)
next
  case True
  have fwd: "mask_assign (zeros_like x) (map (\<lambda>v. v \<le> p) x)
               (map f (mask_select x (map (\<lambda>v. v \<le> p) x))) =
             map (\<lambda>v. if v \<le> p then f v else 0) x" for f :: "real \<Rightarrow> real"
    unfolding zeros_like_map by (rule mask_assign_map)
  have aft: "mask_assign (map (\<lambda>v. if v \<le> p then f v else 0) x) (map (\<lambda>v. p < v) x)
               (map g (mask_select x (map (\<lambda>v. p < v) x))) =
             map (\<lambda>v. if v \<le> p then f v else g v) x" for f g :: "real \<Rightarrow> real"
    by (subst mask_assign_map) (auto intro!: map_cong)
  show ?thesis
    using True
    by (simp add: camber_line_def Let_def fwd aft camber_at_def slope_at_def)
qed

lemma camber_line_symmetric:
  "\<not> (m > 0 \<and> p > 0) \<Longrightarrow> camber_line m p x = (zeros_like x, zeros_like x)"
  by (cases "0 < m") (simp_all add: camber_line_def Let_def)

lemma map2_self_map:
  "map2 h xs (map g xs) = map (\<lambda>v. h v (g v)) xs"
  by (induction xs) simp_all

lemma arr_maps:
  "arr_add (map f xs) (map g xs) = map (\<lambda>v. f v + g v) xs"
  "arr_sub (map f xs) (map g xs) = map (\<lambda>v. f v - g v) xs"
  "arr_mul (map f xs) (map g xs) = map (\<lambda>v. f v * g v) xs"
  "arr_add xs (map g xs) = map (\<lambda>v. v + g v) xs"
  "arr_sub xs (map g xs) = map (\<lambda>v. v - g v) xs"
  by (simp_all add: arr_add_def arr_sub_def arr_mul_def map2_map_map map2_self_map)

lemma surfaces_pointwise:
  "surfaces x (thickness_distribution t x) (map (camber_at m p) x) (map (slope_at m p) x) c =
     (map (upper_x m p t c) x, map (upper_y m p t c) x,
      map (lower_x m p t c) x, map (lower_y m p t c) x)"
  by (simp add: surfaces_def Let_def thickness_distribution_def arr_maps o_def
      upper_x_def upper_y_def lower_x_def lower_y_def)

lemma coordinates_of_params_pointwise:
  assumes "stations n = Inr x"
  shows "coordinates_of_params m0 p0 t0 c n =
     Inr (map (upper_x (real_of_int m0 / 100) (real_of_int p0 / 10) (real_of_int t0 / 100) c) x,
          map (upper_y (real_of_int m0 / 100) (real_of_int p0 / 10) (real_of_int t0 / 100) c) x,
          map (lower_x (real_of_int m0 / 100) (real_of_int p0 / 10) (real_of_int t0 / 100) c) x,
          map (lower_y (real_of_int m0 / 100) (real_of_int p0 / 10) (real_of_int t0 / 100) c) x)"
  using assms
  by (simp add: coordinates_of_params_def Let_def camber_line_pointwise surfaces_pointwise)

lemma stations_ok:
  "0 \<le> n \<Longrightarrow> \<exists>x. stations n = Inr x \<and> length x = nat n"
  using linspace_length [of n 0 pi] by (auto simp: stations_def)

subsection \<open>Thickness\<close>

text \<open>
  On \<open>(0, 1]\<close> the half-thickness is positive: the square root is at least \<open>x\<close>
  there, and what remains is \<open>x\<close> times a factor that is at least 0.0021.
\<close>

lemma half_thickness_0: "half_thickness t 0 = 0"
  by (simp add: half_thickness_def)


lemma thickness_polynomial:
  fixes x :: real
  shows "0.2969 * x - 0.1260 * x - 0.3516 * x\<^sup>2 + 0.2843 * x ^ 3 - 0.1015 * x ^ 4 =
         x * (0.0021 + (1 - x) * (0.1015 * (x - 0.9)\<^sup>2 + (0.086585 - 0.0001 * x)))"
  by (simp add: power2_eq_square power3_eq_cube power4_eq_xxxx field_simps)

lemma half_thickness_pos:
  assumes "0 < t" and "0 < x" and "x \<le> 1"
  shows "0 < half_thickness t x"
proof -
  have "x\<^sup>2 \<le> x"
    using assms(2,3) by (simp add: power2_eq_square mult_left_le)
  then have sq: "x \<le> sqrt x"
    by (rule real_le_rsqrt)
  have "0 \<le> 0.1015 * (x - 0.9)\<^sup>2"
    by simp
  moreover have "0 < 0.086585 - 0.0001 * x"
    using assms(3) by simp
  ultimately have r: "0 < 0.1015 * (x - 0.9)\<^sup>2 + (0.086585 - 0.0001 * x)"
    by (rule add_nonneg_pos)
  have "0 \<le> (1 - x) * (0.1015 * (x - 0.9)\<^sup>2 + (0.086585 - 0.0001 * x))"
    using r assms(3) by (intro mult_nonneg_nonneg) simp_all
  then have "0 < 0.0021 + (1 - x) * (0.1015 * (x - 0.9)\<^sup>2 + (0.086585 - 0.0001 * x))"
    by (intro add_pos_nonneg) simp_all
  with assms(2)
  have "0 < x * (0.0021 + (1 - x) * (0.1015 * (x - 0.9)\<^sup>2 + (0.086585 - 0.0001 * x)))"
    by (rule mult_pos_pos)
  then have "0 < 0.2969 * x - 0.1260 * x - 0.3516 * x\<^sup>2 + 0.2843 * x ^ 3 - 0.1015 * x ^ 4"
    by (simp only: thickness_polynomial)
  also have "\<dots> \<le> 0.2969 * sqrt x - 0.1260 * x - 0.3516 * x\<^sup>2 + 0.2843 * x ^ 3 - 0.1015 * x ^ 4"
    using sq by simp
  finally show ?thesis
    unfolding half_thickness_def using assms(1) by simp
qed

subsection \<open>The generator as a whole\<close>

lemma cos_arctan_pos: "0 < cos (arctan s)"
  using arctan_lbound arctan_ubound by (rule cos_gt_zero_pi)

lemma naca_of_parse:
  "parse_naca_4digit s = Inr (m0, p0, t0) \<Longrightarrow>
     naca_4digit_coordinates s c n = coordinates_of_params m0 p0 t0 c n"
  by (simp add: naca_4digit_coordinates_def)

lemma coordinates_of_params_isl:
  "isl (coordinates_of_params m0 p0 t0 c n) \<longleftrightarrow> n < 0"
proof (cases "n < 0")
  case True
  then show ?thesis
    by (simp add: coordinates_of_params_def stations_def linspace_def)
next
  case False
  then obtain x where "stations n = Inr x"
    using stations_ok [of n] by auto
  then show ?thesis
    using False by (simp add: coordinates_of_params_pointwise)
qed

lemma naca_isl_iff:
  "isl (naca_4digit_coordinates s c n) \<longleftrightarrow> isl (parse_naca_4digit s) \<or> n < 0"
  by (cases "parse_naca_4digit s")
     (auto simp: naca_4digit_coordinates_def coordinates_of_params_isl)

lemma coordinates_at_stations:
  assumes "2 \<le> n"
  shows "coordinates_of_params m0 p0 t0 c n =
     Inr (map (\<lambda>i. upper_x (real_of_int m0 / 100) (real_of_int p0 / 10) (real_of_int t0 / 100) c
                   (station (nat n - 1) i)) [0..<nat n],
          map (\<lambda>i. upper_y (real_of_int m0 / 100) (real_of_int p0 / 10) (real_of_int t0 / 100) c
                   (station (nat n - 1) i)) [0..<nat n],
          map (\<lambda>i. lower_x (real_of_int m0 / 100) (real_of_int p0 / 10) (real_of_int t0 / 100) c
                   (station (nat n - 1) i)) [0..<nat n],
          map (\<lambda>i. lower_y (real_of_int m0 / 100) (real_of_int p0 / 10) (real_of_int t0 / 100) c
                   (station (nat n - 1) i)) [0..<nat n])"
  using stations_eq [OF assms]
  by (simp add: coordinates_of_params_pointwise o_def)

lemma upper_above_lower:
  assumes "0 < t" and "0 < c" and "0 < v" and "v \<le> 1"
  shows "lower_y m p t c v < upper_y m p t c v"
proof -
  have "0 < half_thickness t v * cos (arctan (slope_at m p v))"
    using half_thickness_pos [OF assms(1,3,4)] cos_arctan_pos by (rule mult_pos_pos)
  then have "camber_at m p v - half_thickness t v * cos (arctan (slope_at m p v))
           < camber_at m p v + half_thickness t v * cos (arctan (slope_at m p v))"
    by simp
  then show ?thesis
    unfolding lower_y_def upper_y_def using assms(2) by (rule mult_strict_right_mono)
qed

lemma camber_at_0: "camber_at m p 0 = 0"
  by (simp add: camber_at_def camber_fwd_def)

lemma leading_edge_values:
  "upper_x m p t c 0 = 0" "upper_y m p t c 0 = 0" "lower_x m p t c 0 = 0" "lower_y m p t c 0 = 0"
  by (simp_all add: upper_x_def upper_y_def lower_x_def lower_y_def half_thickness_0 camber_at_0)

lemma scale_pointwise:
  "upper_x m p t (k * c) v = k * upper_x m p t c v"
  "upper_y m p t (k * c) v = k * upper_y m p t c v"
  "lower_x m p t (k * c) v = k * lower_x m p t c v"
  "lower_y m p t (k * c) v = k * lower_y m p t c v"
  by (simp_all add: upper_x_def upper_y_def lower_x_def lower_y_def)

text \<open>
  The decoded camber position is at most 9, so \<open>p\<close> is at most 0.9: neither the division
  by \<open>p\<^sup>2\<close> under the guard of line 69 nor the division by \<open>(1 - p)\<^sup>2\<close> divides by zero,
  and all stations lie in \<open>[0, 1]\<close>, where the square root is the usual one.
\<close>

lemma decimal_value_less_10:
  assumes "decimal_value c = Some d"
  shows "d < 10"
proof -
  from assms obtain z where z: "find (\<lambda>z. z \<le> c \<and> c < z + 10) decimal_zeros = Some z" "d = c - z"
    by (auto simp: decimal_value_def split: option.splits)
  from z(1) have "z \<le> c \<and> c < z + 10"
    by (auto simp: find_Some_iff)
  with z(2) show ?thesis by linarith
qed

lemma parse_range:
  assumes "parse_naca_4digit s = Inr (m0, p0, t0)"
  shows "0 \<le> m0 \<and> m0 \<le> 9 \<and> 0 \<le> p0 \<and> p0 \<le> 9 \<and> 0 \<le> t0 \<and> t0 \<le> 99"
proof -
  have "length s = 4"
    using assms by (auto simp: parse_naca_4digit_def split: if_splits)
  then obtain a b c d where s: "s = [a, b, c, d]"
    using length_4_cases by blast
  from assms obtain m p t1 t2 where
    d: "decimal_value a = Some m" "decimal_value b = Some p"
       "decimal_value c = Some t1" "decimal_value d = Some t2" and
    v: "m0 = int m" "p0 = int p" "t0 = 10 * int t1 + int t2"
    unfolding s parse_4 by (auto split: option.splits)
  show ?thesis
    using d [THEN decimal_value_less_10] v by simp
qed

lemma divisors_not_zero:
  assumes "parse_naca_4digit s = Inr (m0, p0, t0)"
  shows "(1 - real_of_int p0 / 10)\<^sup>2 \<noteq> 0"
    and "0 < real_of_int p0 / 10 \<Longrightarrow> (real_of_int p0 / 10)\<^sup>2 \<noteq> 0"
  using parse_range [OF assms] by auto

lemma symmetric_pointwise:
  assumes "\<not> (0 < m \<and> 0 < p)"
  shows "upper_y m p t c v = - lower_y m p t c v"
    and "upper_x m p t c v = lower_x m p t c v"
    and "upper_x m p t c v = upper_x 0 0 t c v"
    and "upper_y m p t c v = upper_y 0 0 t c v"
    and "lower_x m p t c v = lower_x 0 0 t c v"
    and "lower_y m p t c v = lower_y 0 0 t c v"
  using assms
  by (cases "0 < m"; simp add: upper_x_def upper_y_def lower_x_def lower_y_def
      camber_at_def slope_at_def)+

subsection \<open>The two camber branches at their boundary\<close>

lemma branches_at_boundary:
  fixes m p :: real
  assumes "0 < p" and "p < 1"
  shows "camber_fwd m p p = m" "camber_aft m p p = m" "slope_fwd m p p = 0" "slope_aft m p p = 0"
proof -
  have e1: "2 * p * p - p\<^sup>2 = p\<^sup>2"
    by (simp add: power2_eq_square)
  have n1: "p\<^sup>2 \<noteq> 0"
    using assms(1) by simp
  show "camber_fwd m p p = m"
    unfolding camber_fwd_def e1 using n1 by simp
  have e2: "(1 - 2 * p) + 2 * p * p - p\<^sup>2 = (1 - p)\<^sup>2"
    by (simp add: power2_eq_square algebra_simps)
  have n2: "(1 - p)\<^sup>2 \<noteq> 0"
    using assms(2) by simp
  show "camber_aft m p p = m"
    unfolding camber_aft_def e2 using n2 by simp
  show "slope_fwd m p p = 0" "slope_aft m p p = 0"
    by (simp_all add: slope_fwd_def slope_aft_def)
qed

lemma isCont_branches:
  "isCont (camber_fwd m p) v" "isCont (camber_aft m p) v"
  "isCont (slope_fwd m p) v" "isCont (slope_aft m p) v"
  unfolding camber_fwd_def camber_aft_def slope_fwd_def slope_aft_def
  by (intro continuous_intros)+

lemma isCont_piecewise:
  fixes f g :: "real \<Rightarrow> real"
  assumes "isCont g a" and "isCont f a" and "f a = g a"
  shows "isCont (\<lambda>v. if v \<le> a then g v else f v) a"
proof (rule isCont_If_ge)
  show "continuous (at_left a) g"
    using assms(1) by (rule continuous_at_imp_continuous_at_within)
  have "(f \<longlongrightarrow> f a) (at a)"
    using assms(2) by (simp add: isCont_def)
  then have "(f \<longlongrightarrow> f a) (at_right a)"
    by (rule filterlim_at_split [THEN iffD1, THEN conjunct2])
  then show "(f \<longlongrightarrow> g a) (at_right a)"
    by (simp add: assms(3))
qed

subsection \<open>Symmetric profiles and the trailing edge\<close>

lemma coordinates_symmetric_params:
  assumes "\<not> (0 < real_of_int m0 / 100 \<and> 0 < real_of_int p0 / 10)"
  shows "coordinates_of_params m0 p0 t0 c n = coordinates_of_params 0 0 t0 c n"
proof (cases "n < 0")
  case True
  then show ?thesis
    by (simp add: coordinates_of_params_def stations_def linspace_def)
next
  case False
  then obtain x where x: "stations n = Inr x"
    using stations_ok [of n] by auto
  have z: "\<not> (0 < real_of_int 0 / 100 \<and> 0 < real_of_int 0 / 10)"
    by simp
  show ?thesis
    unfolding coordinates_of_params_pointwise [OF x]
    by (simp add: symmetric_pointwise(3-6) [OF assms])
qed


lemma coordinates_Suc:
  assumes "nat n = Suc N" and "0 < N"
  shows "coordinates_of_params m0 p0 t0 c n =
     Inr (map (\<lambda>i. upper_x (real_of_int m0 / 100) (real_of_int p0 / 10) (real_of_int t0 / 100) c
                   (station N i)) [0..<Suc N],
          map (\<lambda>i. upper_y (real_of_int m0 / 100) (real_of_int p0 / 10) (real_of_int t0 / 100) c
                   (station N i)) [0..<Suc N],
          map (\<lambda>i. lower_x (real_of_int m0 / 100) (real_of_int p0 / 10) (real_of_int t0 / 100) c
                   (station N i)) [0..<Suc N],
          map (\<lambda>i. lower_y (real_of_int m0 / 100) (real_of_int p0 / 10) (real_of_int t0 / 100) c
                   (station N i)) [0..<Suc N])"
proof -
  have "2 \<le> n"
    using assms by linarith
  then show ?thesis
    using coordinates_at_stations [of n m0 p0 t0 c] by (simp add: assms(1))
qed

lemma nth_map_upt_Suc: "i \<le> N \<Longrightarrow> map f [0..<Suc N] ! i = f i"
  by (metis add_0 le_imp_less_Suc nth_map_upt diff_zero)


subsection \<open>The chord in exact arithmetic\<close>

lemma chord_linearity_exact:
  assumes "parse_naca_4digit s = Inr prm" and "0 \<le> n"
  shows "\<exists>xu yu xl yl.
     naca_4digit_coordinates s c n = Inr (xu, yu, xl, yl) \<and>
     naca_4digit_coordinates s (k * c) n =
       Inr (map ((*) k) xu, map ((*) k) yu, map ((*) k) xl, map ((*) k) yl)"
proof -
  obtain m0 p0 t0 where prm: "prm = (m0, p0, t0)"
    by (cases prm) auto
  from assms(2) obtain x where x: "stations n = Inr x"
    using stations_ok by blast
  show ?thesis
    unfolding naca_of_parse [OF assms(1) [unfolded prm]] coordinates_of_params_pointwise [OF x]
    by (simp add: scale_pointwise o_def)
qed

subsection \<open>Rounded products\<close>

text \<open>
  Within one binade the rounding is a rounding to a multiple of the last place; it commutes
  with a scaling by a power of two, and it moves a normal number by at most the fraction
  \<open>2 powi (- 53)\<close> of its magnitude.
\<close>

lemma powr_powi: "2 powr real_of_int k = (2::real) powi k"
  by (simp add: powr_real_of_int power_int_def power_one_over inverse_eq_divide)

lemma floor_log2_eq:
  assumes "2 powi e \<le> \<bar>x\<bar>" and "\<bar>x\<bar> < 2 powi (e + 1)"
  shows "\<lfloor>log 2 \<bar>x\<bar>\<rfloor> = e"
proof -
  have pos: "0 < \<bar>x\<bar>"
    using assms(1) by (smt (verit) zero_less_power_int)
  have "2 powr real_of_int e \<le> \<bar>x\<bar> \<and> \<bar>x\<bar> < 2 powr (real_of_int e + 1)"
    using assms powr_powi [of e] powr_powi [of "e + 1"] by simp
  then show ?thesis
    using floor_log_eq_powr_iff [OF pos, of 2 e] by simp
qed

lemma rne_error: "\<bar>real_of_int (rne r) - r\<bar> \<le> 1 / 2"
  unfolding rne_def Let_def by (auto simp: abs_le_iff)

lemma rne_of_int: "rne (of_int n) = n"
  by (simp add: rne_def)

lemma rne_0: "rne 0 = 0"
  by (simp add: rne_def)

lemma rne_mono_bound:
  assumes "\<bar>r\<bar> \<le> of_int n"
  shows "\<bar>rne r\<bar> \<le> n"
proof -
  have "\<bar>real_of_int (rne r)\<bar> \<le> of_int n + 1 / 2"
    using rne_error [of r] assms by linarith
  then have "real_of_int \<bar>rne r\<bar> < of_int (n + 1)"
    by simp
  then have "\<bar>rne r\<bar> < n + 1"
    by (simp only: of_int_less_iff)
  then show ?thesis by simp
qed

lemma ulp_exponent_normal:
  assumes "2 powi e \<le> \<bar>x\<bar>" and "\<bar>x\<bar> < 2 powi (e + 1)" and "- 1022 \<le> e"
  shows "ulp_exponent x = e - 52"
  using floor_log2_eq [OF assms(1,2)] assms(3) by (simp add: ulp_exponent_def)

lemma fl64_normal:
  assumes "2 powi e \<le> \<bar>x\<bar>" and "\<bar>x\<bar> < 2 powi (e + 1)" and "- 1022 \<le> e" and "e \<le> 1022"
  shows "fl64 x = Some (of_int (rne (x / 2 powi (e - 52))) * 2 powi (e - 52))"
proof -
  have q: "ulp_exponent x = e - 52"
    using assms(1,2,3) by (rule ulp_exponent_normal)
  have x0: "x \<noteq> 0"
    using assms(1) by (smt (verit) zero_less_power_int abs_zero)
  have "\<bar>x / 2 powi (e - 52)\<bar> = \<bar>x\<bar> * 2 powi (52 - e)"
    by (simp add: abs_divide power_int_diff field_simps)
  also have "\<dots> \<le> 2 powi (e + 1) * 2 powi (52 - e)"
    using assms(2) by (intro mult_right_mono) simp_all
  also have "\<dots> = of_int (2 ^ 53)"
    by (simp add: power_int_add [symmetric])
  finally have "\<bar>rne (x / 2 powi (e - 52))\<bar> \<le> 2 ^ 53"
    by (rule rne_mono_bound)
  then have "real_of_int \<bar>rne (x / 2 powi (e - 52))\<bar> \<le> real_of_int (2 ^ 53)"
    by (simp only: of_int_le_iff)
  then have "\<bar>real_of_int (rne (x / 2 powi (e - 52)))\<bar> \<le> 2 powi 53"
    by simp
  then have "\<bar>real_of_int (rne (x / 2 powi (e - 52))) * 2 powi (e - 52)\<bar> \<le> 2 powi 53 * 2 powi (e - 52)"
    by (simp add: abs_mult mult_right_mono)
  also have "\<dots> = 2 powi (53 + (e - 52))"
    by (rule power_int_add [symmetric]) simp
  also have "\<dots> < 2 powi 1024"
    using assms(4) by (intro power_int_strict_increasing) simp_all
  finally show ?thesis
    using x0 by (simp add: fl64_def q Let_def)
qed


lemma fl64_binade:
  assumes "2 powi e \<le> \<bar>x\<bar>" and "\<bar>x\<bar> < 2 powi (e + 1)" and "- 1022 \<le> e"
  shows "fl64 x =
     (if \<bar>real_of_int (rne (x / 2 powi (e - 52))) * 2 powi (e - 52)\<bar> \<ge> 2 powi 1024 then None
      else Some (real_of_int (rne (x / 2 powi (e - 52))) * 2 powi (e - 52)))"
proof -
  have q: "ulp_exponent x = e - 52"
    using assms by (rule ulp_exponent_normal)
  have "0 < \<bar>x\<bar>"
    using assms(1) zero_less_power_int [of "2::real" e] by linarith
  then have "x \<noteq> 0"
    by simp
  then show ?thesis
    by (simp add: fl64_def q Let_def)
qed

lemma binade_exists:
  fixes x :: real
  assumes "x \<noteq> 0"
  obtains e where "2 powi e \<le> \<bar>x\<bar>" and "\<bar>x\<bar> < 2 powi (e + 1)"
proof -
  have pos: "0 < \<bar>x\<bar>"
    using assms by simp
  have "2 powr real_of_int \<lfloor>log 2 \<bar>x\<bar>\<rfloor> \<le> \<bar>x\<bar> \<and> \<bar>x\<bar> < 2 powr (real_of_int \<lfloor>log 2 \<bar>x\<bar>\<rfloor> + 1)"
    using floor_log_eq_powr_iff [OF pos, of 2 "\<lfloor>log 2 \<bar>x\<bar>\<rfloor>"] by simp
  then have "2 powi \<lfloor>log 2 \<bar>x\<bar>\<rfloor> \<le> \<bar>x\<bar> \<and> \<bar>x\<bar> < 2 powi (\<lfloor>log 2 \<bar>x\<bar>\<rfloor> + 1)"
    using powr_powi [of "\<lfloor>log 2 \<bar>x\<bar>\<rfloor>"] powr_powi [of "\<lfloor>log 2 \<bar>x\<bar>\<rfloor> + 1"] by simp
  then show ?thesis
    using that by blast
qed

lemma powi_less_cancel:
  assumes "(2::real) powi a \<le> y" and "y < 2 powi b"
  shows "a < b"
proof (rule ccontr)
  assume "\<not> a < b"
  then have "(2::real) powi b \<le> 2 powi a"
    by (intro power_int_increasing) simp_all
  with assms show False
    by linarith
qed

lemma fl64_power_of_two:
  assumes "2 powi (- 1022) \<le> \<bar>x\<bar>" and "2 powi (- 1022) \<le> \<bar>2 powi j * x\<bar>"
    and "fl64 x = Some p" and "fl64 (2 powi j * x) = Some q"
  shows "q = 2 powi j * p"
proof -
  have "x \<noteq> 0"
    using assms(1) zero_less_power_int [of "2::real" "- 1022"] by auto
  then obtain e where e: "2 powi e \<le> \<bar>x\<bar>" "\<bar>x\<bar> < 2 powi (e + 1)"
    by (rule binade_exists)
  have e1: "- 1022 \<le> e"
    using powi_less_cancel [OF assms(1) e(2)] by simp
  have m: "\<bar>2 powi j * x\<bar> = 2 powi j * \<bar>x\<bar>"
    by (simp add: abs_mult)
  have "2 powi j * 2 powi e \<le> 2 powi j * \<bar>x\<bar>"
    using e(1) by (intro mult_left_mono) simp_all
  then have f1: "2 powi (j + e) \<le> \<bar>2 powi j * x\<bar>"
    unfolding m by (simp add: power_int_add)
  have "2 powi j * \<bar>x\<bar> < 2 powi j * 2 powi (e + 1)"
    using e(2) by (intro mult_strict_left_mono) simp_all
  then have f2: "\<bar>2 powi j * x\<bar> < 2 powi (j + e + 1)"
    unfolding m by (simp add: power_int_add ac_simps)
  have e2: "- 1022 \<le> j + e"
    using powi_less_cancel [OF assms(2) f2] by simp
  have same: "2 powi j * x / 2 powi (j + e - 52) = x / 2 powi (e - 52)"
    by (simp add: power_int_diff power_int_add field_simps)
  have sc: "2 powi (j + e - 52) = 2 powi j * (2::real) powi (e - 52)"
    by (simp add: power_int_diff power_int_add field_simps)
  from assms(3) have p: "p = of_int (rne (x / 2 powi (e - 52))) * 2 powi (e - 52)"
    unfolding fl64_binade [OF e e1] by (simp split: if_splits)
  from assms(4) have "q = of_int (rne (2 powi j * x / 2 powi (j + e - 52))) * 2 powi (j + e - 52)"
    unfolding fl64_binade [OF f1 f2 e2] by (simp split: if_splits)
  then show ?thesis
    unfolding same sc p by simp
qed

lemma fl64_relative_error:
  assumes "2 powi (- 1022) \<le> \<bar>x\<bar>" and "fl64 x = Some p"
  shows "\<bar>p - x\<bar> \<le> 2 powi (- 53) * \<bar>x\<bar>"
proof -
  have "x \<noteq> 0"
    using assms(1) zero_less_power_int [of "2::real" "- 1022"] by auto
  then obtain e where e: "2 powi e \<le> \<bar>x\<bar>" "\<bar>x\<bar> < 2 powi (e + 1)"
    by (rule binade_exists)
  have e1: "- 1022 \<le> e"
    using powi_less_cancel [OF assms(1) e(2)] by simp
  let ?q = "(2::real) powi (e - 52)"
  have q: "0 < ?q"
    by simp
  from assms(2) have p: "p = of_int (rne (x / ?q)) * ?q"
    unfolding fl64_binade [OF e e1] by (simp split: if_splits)
  have "p - x = (of_int (rne (x / ?q)) - x / ?q) * ?q"
    unfolding p using q by (simp add: field_simps)
  then have "\<bar>p - x\<bar> = \<bar>of_int (rne (x / ?q)) - x / ?q\<bar> * ?q"
    using q by (simp add: abs_mult)
  also have "\<dots> \<le> 1 / 2 * ?q"
    using rne_error [of "x / ?q"] q by (intro mult_right_mono) simp_all
  also have "\<dots> = 2 powi (- 53) * 2 powi e"
    by (simp add: power_int_diff power_int_minus field_simps)
  also have "\<dots> \<le> 2 powi (- 53) * \<bar>x\<bar>"
    using e(1) by (intro mult_left_mono) simp_all
  finally show ?thesis .
qed

lemma scaling_error:
  assumes "2 powi (- 1022) \<le> \<bar>v * c\<bar>" and "2 powi (- 1022) \<le> \<bar>v * (k * c)\<bar>"
    and "fl64 (v * c) = Some p" and "fl64 (v * (k * c)) = Some q"
  shows "\<bar>q - k * p\<bar> \<le> 2 powi (- 52) * \<bar>k * (v * c)\<bar>"
proof -
  have a: "\<bar>p - v * c\<bar> \<le> 2 powi (- 53) * \<bar>v * c\<bar>"
    using assms(1,3) by (rule fl64_relative_error)
  have b: "\<bar>q - v * (k * c)\<bar> \<le> 2 powi (- 53) * \<bar>v * (k * c)\<bar>"
    using assms(2,4) by (rule fl64_relative_error)
  have "\<bar>k * p - k * (v * c)\<bar> = \<bar>k\<bar> * \<bar>p - v * c\<bar>"
    by (simp add: abs_mult [symmetric] right_diff_distrib)
  also have "\<dots> \<le> \<bar>k\<bar> * (2 powi (- 53) * \<bar>v * c\<bar>)"
    using a by (intro mult_left_mono) simp_all
  also have "\<dots> = 2 powi (- 53) * \<bar>k * (v * c)\<bar>"
    by (simp add: abs_mult)
  finally have c: "\<bar>k * p - k * (v * c)\<bar> \<le> 2 powi (- 53) * \<bar>k * (v * c)\<bar>" .
  have d: "v * (k * c) = k * (v * c)"
    by simp
  have "\<bar>q - k * p\<bar> \<le> \<bar>q - k * (v * c)\<bar> + \<bar>k * p - k * (v * c)\<bar>"
    by linarith
  also have "\<dots> \<le> 2 powi (- 53) * \<bar>k * (v * c)\<bar> + 2 powi (- 53) * \<bar>k * (v * c)\<bar>"
    using b c unfolding d by linarith
  also have "\<dots> = 2 powi (- 52) * \<bar>k * (v * c)\<bar>"
    by (simp add: power_int_minus field_simps)
  finally show ?thesis .
qed

lemma fl64_zero: "fl64 0 = Some 0"
  by (simp add: fl64_def)

lemma scale64_nth:
  "i < length a \<Longrightarrow> scale64 a c ! i = fl64 (a ! i * c)"
  by (simp add: scale64_def)

section \<open>The generator: properties\<close>

text \<open>
  C1, as the code has it. The generator checks neither the chord nor the point count: it
  fails exactly when the designation is rejected or the point count is negative, whatever
  the chord. The two checks are made by \<open>main\<close>: a chord that is not positive is
  refused with the message "Chord length must be positive", and with a positive chord a
  point count below 10 is refused with "Number of points must be at least 10".
\<close>

theorem validation_is_in_main:
  "(chord a \<le> 0 \<longrightarrow> main a = Inl (ValueError ''Chord length must be positive'')) \<and>
   (0 < chord a \<and> num_points a < 10 \<longrightarrow>
      main a = Inl (ValueError ''Number of points must be at least 10'')) \<and>
   (isl (naca_4digit_coordinates s c n) \<longleftrightarrow> isl (parse_naca_4digit s) \<or> n < 0)"
  by (simp add: main_def naca_isl_iff)

theorem validation_is_in_main_witness:
  "chord \<lparr>naca = [50, 52, 49, 50], chord = - 5, num_points = 100\<rparr> \<le> 0 \<and>
   main \<lparr>naca = [50, 52, 49, 50], chord = - 5, num_points = 100\<rparr> =
     Inl (ValueError ''Chord length must be positive'') \<and>
   0 < chord \<lparr>naca = [50, 52, 49, 50], chord = 10, num_points = 1\<rparr> \<and>
   num_points \<lparr>naca = [50, 52, 49, 50], chord = 10, num_points = 1\<rparr> < 10 \<and>
   main \<lparr>naca = [50, 52, 49, 50], chord = 10, num_points = 1\<rparr> =
     Inl (ValueError ''Number of points must be at least 10'')"
  using validation_is_in_main [of "\<lparr>naca = [50, 52, 49, 50], chord = - 5, num_points = 100\<rparr>"]
    validation_is_in_main [of "\<lparr>naca = [50, 52, 49, 50], chord = 10, num_points = 1\<rparr>"]
  by simp

text \<open>
  With the chord \<open>-5\<close> and 100 points the generator returns coordinates, and with the
  chord 10 and a single point it returns the one station at the leading edge.
\<close>

theorem generator_does_not_validate:
  "\<not> isl (naca_4digit_coordinates [50, 52, 49, 50] (- 5) 100) \<and>
   naca_4digit_coordinates [50, 52, 49, 50] 10 1 = Inr ([0], [0], [0], [0])"
proof
  show "\<not> isl (naca_4digit_coordinates [50, 52, 49, 50] (- 5) 100)"
    by (simp add: naca_isl_iff parse_2412)
  have "stations 1 = Inr [0]"
    by (simp add: stations_def linspace_def)
  then show "naca_4digit_coordinates [50, 52, 49, 50] 10 1 = Inr ([0], [0], [0], [0])"
    by (simp add: naca_of_parse [OF parse_2412] coordinates_of_params_pointwise
        leading_edge_values)
qed

text \<open>
  C4. For the designation \<open>"0012"\<close>, every chord and every point count that is not
  negative (so every chord above 0 and every point count from 2 on): the camber height
  and the camber slope are 0 at every sampled station, and at every index the upper
  y-value is the negative of the lower y-value.
\<close>

theorem symmetric_0012:
  assumes "0 \<le> n"
  shows "\<exists>x xu yu xl yl.
     parse_naca_4digit [48, 48, 49, 50] = Inr (0, 0, 12) \<and>
     stations n = Inr x \<and> length x = nat n \<and>
     camber_line (real_of_int 0 / 100) (real_of_int 0 / 10) x =
       (replicate (nat n) 0, replicate (nat n) 0) \<and>
     naca_4digit_coordinates [48, 48, 49, 50] c n = Inr (xu, yu, xl, yl) \<and>
     length yu = nat n \<and> length yl = nat n \<and>
     (\<forall>i<nat n. yu ! i = - (yl ! i))"
proof -
  from assms obtain x where x: "stations n = Inr x" "length x = nat n"
    using stations_ok by blast
  have sym: "\<not> (0 < real_of_int 0 / 100 \<and> 0 < real_of_int 0 / 10)"
    by simp
  have cam: "camber_line (real_of_int 0 / 100) (real_of_int 0 / 10) x =
       (replicate (nat n) 0, replicate (nat n) 0)"
    using camber_line_symmetric [OF sym, of x] x(2) by (simp add: zeros_like_def)
  have "\<forall>i<nat n. map (upper_y (real_of_int 0 / 100) (real_of_int 0 / 10) (real_of_int 12 / 100) c) x ! i =
      - (map (lower_y (real_of_int 0 / 100) (real_of_int 0 / 10) (real_of_int 12 / 100) c) x ! i)"
    using x(2) symmetric_pointwise(1) [OF sym] by simp
  then show ?thesis
    using x cam
    by (simp add: parse_0012 naca_of_parse [OF parse_0012] coordinates_of_params_pointwise [OF x(1)])
qed

theorem symmetric_0012_witness:
  "(0::int) \<le> 150 \<and>
   (\<exists>x xu yu xl yl.
     stations 150 = Inr x \<and>
     camber_line (real_of_int 0 / 100) (real_of_int 0 / 10) x =
       (replicate (nat 150) 0, replicate (nat 150) 0) \<and>
     naca_4digit_coordinates [48, 48, 49, 50] 50 150 = Inr (xu, yu, xl, yl) \<and>
     yu ! 149 = - (yl ! 149))"
proof -
  have h: "(0::int) \<le> 150"
    by simp
  obtain x xu yu xl yl where r:
    "stations 150 = Inr x"
    "camber_line (real_of_int 0 / 100) (real_of_int 0 / 10) x =
       (replicate (nat 150) 0, replicate (nat 150) 0)"
    "naca_4digit_coordinates [48, 48, 49, 50] 50 150 = Inr (xu, yu, xl, yl)"
    "\<forall>i<nat 150. yu ! i = - (yl ! i)"
    using symmetric_0012 [OF h, of 50] by blast
  from r(4) have "yu ! 149 = - (yl ! 149)"
    by simp
  with h r(1,2,3) show ?thesis
    by blast
qed

text \<open>
  C5. For a camber \<open>m0\<close> percent above 0 and a camber position \<open>p0\<close> tenths with
  \<open>0 < p0 / 10 < 1\<close>, at the station \<open>x = p0 / 10\<close> the forward and the aft camber
  heights are both \<open>m0 / 100\<close> and the forward and the aft slopes are both 0; so the
  camber line and its slope, as functions of the station, are continuous there.
\<close>

theorem camber_branches_agree:
  assumes "0 < m0" and "0 < p0" and "p0 < 10"
  shows "camber_fwd (real_of_int m0 / 100) (real_of_int p0 / 10) (real_of_int p0 / 10) =
           real_of_int m0 / 100 \<and>
         camber_aft (real_of_int m0 / 100) (real_of_int p0 / 10) (real_of_int p0 / 10) =
           real_of_int m0 / 100 \<and>
         slope_fwd (real_of_int m0 / 100) (real_of_int p0 / 10) (real_of_int p0 / 10) = 0 \<and>
         slope_aft (real_of_int m0 / 100) (real_of_int p0 / 10) (real_of_int p0 / 10) = 0 \<and>
         isCont (camber_at (real_of_int m0 / 100) (real_of_int p0 / 10)) (real_of_int p0 / 10) \<and>
         isCont (slope_at (real_of_int m0 / 100) (real_of_int p0 / 10)) (real_of_int p0 / 10)"
proof -
  let ?m = "real_of_int m0 / 100" and ?p = "real_of_int p0 / 10"
  have p: "0 < ?p" "?p < 1" and m: "0 < ?m"
    using assms by simp_all
  note b = branches_at_boundary [OF p, of ?m]
  have ca: "camber_at ?m ?p = (\<lambda>v. if v \<le> ?p then camber_fwd ?m ?p v else camber_aft ?m ?p v)"
    using p(1) m by (simp add: camber_at_def fun_eq_iff)
  have sa: "slope_at ?m ?p = (\<lambda>v. if v \<le> ?p then slope_fwd ?m ?p v else slope_aft ?m ?p v)"
    using p(1) m by (simp add: slope_at_def fun_eq_iff)
  have "isCont (camber_at ?m ?p) ?p"
    unfolding ca by (rule isCont_piecewise) (simp_all only: isCont_branches b)
  moreover have "isCont (slope_at ?m ?p) ?p"
    unfolding sa by (rule isCont_piecewise) (simp_all only: isCont_branches b)
  ultimately show ?thesis
    using b by simp
qed

theorem camber_branches_agree_witness:
  "(0::int) < 2 \<and> (0::int) < 4 \<and> (4::int) < 10 \<and>
   camber_fwd (real_of_int 2 / 100) (real_of_int 4 / 10) (real_of_int 4 / 10) = real_of_int 2 / 100 \<and>
   camber_aft (real_of_int 2 / 100) (real_of_int 4 / 10) (real_of_int 4 / 10) = real_of_int 2 / 100 \<and>
   slope_fwd (real_of_int 2 / 100) (real_of_int 4 / 10) (real_of_int 4 / 10) = 0 \<and>
   slope_aft (real_of_int 2 / 100) (real_of_int 4 / 10) (real_of_int 4 / 10) = 0"
proof -
  have h: "(0::int) < 2" "(0::int) < 4" "(4::int) < 10"
    by simp_all
  show ?thesis
    using h camber_branches_agree [OF h] by blast
qed

text \<open>
  C6. For a designation whose camber position is 0 and whose camber is above 0, the camber
  height and slope are 0 at every station, the generator returns what it returns for the
  symmetric designation with the same two thickness digits, and the profile is symmetric:
  the upper and lower x-values are equal and the upper y-value is the negative of the
  lower one.
\<close>

theorem zero_position_is_symmetric:
  assumes "parse_naca_4digit s = Inr (m0, 0, t0)" and "0 < m0"
  shows "camber_line (real_of_int m0 / 100) (real_of_int 0 / 10) x = (zeros_like x, zeros_like x) \<and>
         naca_4digit_coordinates s c n = naca_4digit_coordinates (48 # 48 # drop 2 s) c n \<and>
         (\<forall>xu yu xl yl. naca_4digit_coordinates s c n = Inr (xu, yu, xl, yl) \<longrightarrow>
            xu = xl \<and> length yu = length yl \<and> (\<forall>i<length yu. yu ! i = - (yl ! i)))"
proof (intro conjI allI impI)
  have sym: "\<not> (0 < real_of_int m0 / 100 \<and> 0 < real_of_int 0 / 10)"
    by simp
  show "camber_line (real_of_int m0 / 100) (real_of_int 0 / 10) x = (zeros_like x, zeros_like x)"
    using sym by (rule camber_line_symmetric)
  have "length s = 4"
    using assms(1) by (auto simp: parse_naca_4digit_def split: if_splits)
  then obtain a b d e where s: "s = [a, b, d, e]"
    using length_4_cases by blast
  from assms(1) have "parse_naca_4digit [48, 48, d, e] = Inr (0, 0, t0)"
    unfolding s parse_4 by (auto simp: decimal_value_ascii split: option.splits)
  then have z: "naca_4digit_coordinates (48 # 48 # drop 2 s) c n = coordinates_of_params 0 0 t0 c n"
    unfolding s by (simp add: naca_of_parse)
  have n: "naca_4digit_coordinates s c n = coordinates_of_params m0 0 t0 c n"
    using assms(1) by (rule naca_of_parse)
  show "naca_4digit_coordinates s c n = naca_4digit_coordinates (48 # 48 # drop 2 s) c n"
    unfolding z n using sym by (rule coordinates_symmetric_params)
  fix xu yu xl yl
  assume r: "naca_4digit_coordinates s c n = Inr (xu, yu, xl, yl)"
  then have "\<not> n < 0"
    using naca_isl_iff [of s c n] by auto
  then obtain v where v: "stations n = Inr v"
    using stations_ok [of n] by auto
  from r show "xu = xl"
    unfolding n coordinates_of_params_pointwise [OF v]
    using symmetric_pointwise(2) [OF sym] by auto
  from r show "length yu = length yl"
    unfolding n coordinates_of_params_pointwise [OF v] by auto
  fix i
  assume "i < length yu"
  with r show "yu ! i = - (yl ! i)"
    unfolding n coordinates_of_params_pointwise [OF v]
    using symmetric_pointwise(1) [OF sym] by auto
qed

theorem zero_position_is_symmetric_witness:
  "parse_naca_4digit [50, 48, 49, 50] = Inr (2, 0, 12) \<and> (0::int) < 2 \<and>
   camber_line (real_of_int 2 / 100) (real_of_int 0 / 10) [0, 1 / 2, 1] =
     (zeros_like [0, 1 / 2, 1], zeros_like [0, 1 / 2, 1]) \<and>
   naca_4digit_coordinates [50, 48, 49, 50] 100 100 =
     naca_4digit_coordinates [48, 48, 49, 50] 100 100"
proof -
  have h: "(0::int) < 2"
    by simp
  show ?thesis
    using parse_2012 h
      zero_position_is_symmetric [OF parse_2012 h, of "[0, 1 / 2, 1]" 100 100]
    by simp
qed

text \<open>
  C7, as the code has it. In exact arithmetic each coordinate generated for the chord
  \<open>k * c\<close> is \<open>k\<close> times the coordinate generated for the chord \<open>c\<close>, for every accepted
  designation and every point count that is not negative, because the chord enters only
  in the products of lines 92 to 95. In float64 each of these products is rounded once.
  For an unscaled coordinate whose two products are normal numbers and do not overflow,
  the result for the chord \<open>2 powi j * c\<close> is exactly \<open>2 powi j\<close> times the result for the
  chord \<open>c\<close>, and for any factor \<open>k\<close> the result \<open>q\<close> for \<open>k * c\<close> and the result \<open>p\<close>
  for \<open>c\<close> satisfy \<open>\<bar>q - k * p\<bar> \<le> 2 powi (- 52) * \<bar>k * u * c\<bar>\<close>.
\<close>

theorem chord_scaling_up_to_rounding:
  "(parse_naca_4digit s = Inr prm \<and> 0 \<le> n \<longrightarrow>
      (\<exists>xu yu xl yl.
         naca_4digit_coordinates s c n = Inr (xu, yu, xl, yl) \<and>
         naca_4digit_coordinates s (k * c) n =
           Inr (map ((*) k) xu, map ((*) k) yu, map ((*) k) xl, map ((*) k) yl))) \<and>
   length (scale64 a c) = length a \<and>
   (\<forall>i p q. i < length a \<and>
        2 powi (- 1022) \<le> \<bar>a ! i * c\<bar> \<and> 2 powi (- 1022) \<le> \<bar>a ! i * (2 powi j * c)\<bar> \<and>
        scale64 a c ! i = Some p \<and> scale64 a (2 powi j * c) ! i = Some q \<longrightarrow>
        q = 2 powi j * p) \<and>
   (\<forall>i p q. i < length a \<and>
        2 powi (- 1022) \<le> \<bar>a ! i * c\<bar> \<and> 2 powi (- 1022) \<le> \<bar>a ! i * (k * c)\<bar> \<and>
        scale64 a c ! i = Some p \<and> scale64 a (k * c) ! i = Some q \<longrightarrow>
        \<bar>q - k * p\<bar> \<le> 2 powi (- 52) * \<bar>k * (a ! i * c)\<bar>)"
proof (intro conjI allI impI)
  assume "parse_naca_4digit s = Inr prm \<and> 0 \<le> n"
  then show "\<exists>xu yu xl yl.
         naca_4digit_coordinates s c n = Inr (xu, yu, xl, yl) \<and>
         naca_4digit_coordinates s (k * c) n =
           Inr (map ((*) k) xu, map ((*) k) yu, map ((*) k) xl, map ((*) k) yl)"
    using chord_linearity_exact by blast
next
  show "length (scale64 a c) = length a"
    by (simp add: scale64_def)
next
  fix i p q
  assume "i < length a \<and>
        2 powi (- 1022) \<le> \<bar>a ! i * c\<bar> \<and> 2 powi (- 1022) \<le> \<bar>a ! i * (2 powi j * c)\<bar> \<and>
        scale64 a c ! i = Some p \<and> scale64 a (2 powi j * c) ! i = Some q"
  then have i: "i < length a"
    and b1: "2 powi (- 1022) \<le> \<bar>a ! i * c\<bar>"
    and b2: "2 powi (- 1022) \<le> \<bar>a ! i * (2 powi j * c)\<bar>"
    and s1: "scale64 a c ! i = Some p"
    and s2: "scale64 a (2 powi j * c) ! i = Some q"
    by blast+
  have e: "a ! i * (2 powi j * c) = 2 powi j * (a ! i * c)"
    by simp
  show "q = 2 powi j * p"
    using b1 b2 [unfolded e] s1 [unfolded scale64_nth [OF i]]
      s2 [unfolded scale64_nth [OF i] e]
    by (rule fl64_power_of_two)
next
  fix i p q
  assume "i < length a \<and>
        2 powi (- 1022) \<le> \<bar>a ! i * c\<bar> \<and> 2 powi (- 1022) \<le> \<bar>a ! i * (k * c)\<bar> \<and>
        scale64 a c ! i = Some p \<and> scale64 a (k * c) ! i = Some q"
  then have i: "i < length a"
    and b1: "2 powi (- 1022) \<le> \<bar>a ! i * c\<bar>"
    and b2: "2 powi (- 1022) \<le> \<bar>a ! i * (k * c)\<bar>"
    and s1: "scale64 a c ! i = Some p"
    and s2: "scale64 a (k * c) ! i = Some q"
    by blast+
  show "\<bar>q - k * p\<bar> \<le> 2 powi (- 52) * \<bar>k * (a ! i * c)\<bar>"
    using b1 b2 s1 [unfolded scale64_nth [OF i]] s2 [unfolded scale64_nth [OF i]]
    by (rule scaling_error)
qed

theorem chord_scaling_up_to_rounding_witness:
  "parse_naca_4digit [50, 52, 49, 50] = Inr (2, 4, 12) \<and> (0::int) \<le> 100 \<and>
   (\<exists>xu yu xl yl.
      naca_4digit_coordinates [50, 52, 49, 50] 100 100 = Inr (xu, yu, xl, yl) \<and>
      naca_4digit_coordinates [50, 52, 49, 50] (3 * 100) 100 =
        Inr (map ((*) 3) xu, map ((*) 3) yu, map ((*) 3) xl, map ((*) 3) yl)) \<and>
   (0::nat) < length [8716086574827609 * 2 powi (- 63) :: real] \<and>
   2 powi (- 1022) \<le> \<bar>[8716086574827609 * 2 powi (- 63)] ! 0 * (10::real)\<bar> \<and>
   2 powi (- 1022) \<le> \<bar>[8716086574827609 * 2 powi (- 63)] ! 0 * (2 powi 1 * (10::real))\<bar> \<and>
   2 powi (- 1022) \<le> \<bar>[8716086574827609 * 2 powi (- 63)] ! 0 * (3 * (10::real))\<bar> \<and>
   scale64 [8716086574827609 * 2 powi (- 63)] 10 ! 0 = Some (680944263658407 * 2 powi (- 56)) \<and>
   scale64 [8716086574827609 * 2 powi (- 63)] (2 powi 1 * 10) ! 0 = Some (2 powi 1 * (680944263658407 * 2 powi (- 56))) \<and>
   scale64 [8716086574827609 * 2 powi (- 63)] (3 * 10) ! 0 = Some (8171331163900883 * 2 powi (- 58)) \<and>
   \<bar>8171331163900883 * 2 powi (- 58) - 3 * (680944263658407 * 2 powi (- 56))\<bar> \<le>
     2 powi (- 52) * \<bar>3 * ([8716086574827609 * 2 powi (- 63)] ! 0 * (10::real))\<bar>"
proof -
  let ?u = "8716086574827609 * 2 powi (- 63) :: real"
  let ?p = "680944263658407 * 2 powi (- 56) :: real"
  let ?q = "8171331163900883 * 2 powi (- 58) :: real"
  have n: "(0::int) \<le> 100" and i: "(0::nat) < length [?u]"
    by simp_all
  have b1: "2 powi (- 1022) \<le> \<bar>[?u] ! 0 * (10::real)\<bar>"
    and b2: "2 powi (- 1022) \<le> \<bar>[?u] ! 0 * (2 powi 1 * (10::real))\<bar>"
    and b3: "2 powi (- 1022) \<le> \<bar>[?u] ! 0 * (3 * (10::real))\<bar>"
    by simp_all
  have "fl64 (?u * 10) = Some ?p"
    by (subst fl64_normal [where e = "- 7"]) (simp_all add: rne_def)
  then have s1: "scale64 [?u] 10 ! 0 = Some ?p"
    by (simp add: scale64_def)
  have "fl64 (?u * 20) = Some (2 * ?p)"
    by (subst fl64_normal [where e = "- 6"]) (simp_all add: rne_def)
  then have s2: "scale64 [?u] (2 powi 1 * 10) ! 0 = Some (2 powi 1 * ?p)"
    by (simp add: scale64_def)
  have "fl64 (?u * 30) = Some ?q"
    by (subst fl64_normal [where e = "- 6"]) (simp_all add: rne_def)
  then have s3: "scale64 [?u] (3 * 10) ! 0 = Some ?q"
    by (simp add: scale64_def)
  note t1 = chord_scaling_up_to_rounding [of "[50, 52, 49, 50]" "(2, 4, 12)" 100 100 3 "[?u]" 1]
  note t2 = chord_scaling_up_to_rounding [of "[50, 52, 49, 50]" "(2, 4, 12)" 100 10 3 "[?u]" 1]
  from t1 parse_2412 n have lin: "\<exists>xu yu xl yl.
      naca_4digit_coordinates [50, 52, 49, 50] 100 100 = Inr (xu, yu, xl, yl) \<and>
      naca_4digit_coordinates [50, 52, 49, 50] (3 * 100) 100 =
        Inr (map ((*) 3) xu, map ((*) 3) yu, map ((*) 3) xl, map ((*) 3) yl)"
    by blast
  from t2 i b1 b3 s1 s3 have err: "\<bar>?q - 3 * ?p\<bar> \<le> 2 powi (- 52) * \<bar>3 * ([?u] ! 0 * (10::real))\<bar>"
    by blast
  show ?thesis
    using parse_2412 n lin i b1 b2 b3 s1 s2 s3 err by blast
qed

text \<open>
  The designation \<open>"0009"\<close> with two points, chord 10 against chord 30 (with more
  points the last entries are the same). The stations are \<open>0.0\<close> and \<open>1.0\<close>. At the
  first the half-thickness is \<open>0.0\<close>. At the last the square root and the powers of
  line 63 are \<open>1.0\<close> and the angle is \<open>0.0\<close>, so the last entry of \<open>yu\<close> before line
  93 is the half-thickness: the float64 value of
  \<open>5 * t * (0.2969 - 0.1260 - 0.3516 + 0.2843 - 0.1015)\<close> with \<open>t = 9 / 100.0\<close>,
  evaluated from the left, one rounding for each literal and each operation. That is
  \<open>0.0009449999999999833\<close>; line 93 turns it into \<open>0.009449999999999834\<close> for the
  chord 10 and into \<open>0.028349999999999497\<close> for the chord 30, which is not three times
  the former, in exact arithmetic or in float64 (\<open>0.0283499999999995\<close>).
\<close>

theorem scaling_by_three_is_not_exact:
  "fl64 (9 / 100) = Some (3242591731706757 * 2 powi (- 55)) \<and>
   fl64 (5 * (3242591731706757 * 2 powi (- 55))) = Some (2026619832316723 * 2 powi (- 52)) \<and>
   fl64 (0.2969) = Some (5348474917465201 * 2 powi (- 54)) \<and>
   fl64 (0.1260) = Some (1134907106097365 * 2 powi (- 53)) \<and>
   fl64 (0.3516) = Some (3166931257966933 * 2 powi (- 53)) \<and>
   fl64 (0.2843) = Some (160046671757679 * 2 powi (- 49)) \<and>
   fl64 (0.1015) = Some (3656922897424843 * 2 powi (- 55)) \<and>
   fl64 (5348474917465201 * 2 powi (- 54) - 1134907106097365 * 2 powi (- 53)) = Some (3078660705270471 * 2 powi (- 54)) \<and>
   fl64 (3078660705270471 * 2 powi (- 54) - 3166931257966933 * 2 powi (- 53)) = Some (- (3255201810663395 * 2 powi (- 54))) \<and>
   fl64 (- (3255201810663395 * 2 powi (- 54)) + 160046671757679 * 2 powi (- 49)) = Some (1866291685582333 * 2 powi (- 54)) \<and>
   fl64 (1866291685582333 * 2 powi (- 54) - 3656922897424843 * 2 powi (- 55)) = Some (75660473739823 * 2 powi (- 55)) \<and>
   fl64 (2026619832316723 * 2 powi (- 52) * (75660473739823 * 2 powi (- 55))) = Some (8716086574827609 * 2 powi (- 63)) \<and>
   scale64 [0, 8716086574827609 * 2 powi (- 63)] 10 = [Some 0, Some (680944263658407 * 2 powi (- 56))] \<and>
   scale64 [0, 8716086574827609 * 2 powi (- 63)] 30 = [Some 0, Some (8171331163900883 * 2 powi (- 58))] \<and>
   8171331163900883 * 2 powi (- 58) \<noteq> 3 * (680944263658407 * 2 powi (- 56) :: real) \<and>
   fl64 (3 * (680944263658407 * 2 powi (- 56))) = Some (3 * (680944263658407 * 2 powi (- 56)))"
proof (intro conjI)
  show "fl64 (9 / 100) = Some (3242591731706757 * 2 powi (- 55))"
    by (subst fl64_normal [where e = "-4"]) (simp_all add: rne_def)
  show "fl64 (5 * (3242591731706757 * 2 powi (- 55))) = Some (2026619832316723 * 2 powi (- 52))"
    by (subst fl64_normal [where e = "-2"]) (simp_all add: rne_def)
  show "fl64 (0.2969) = Some (5348474917465201 * 2 powi (- 54))"
    by (subst fl64_normal [where e = "-2"]) (simp_all add: rne_def)
  show "fl64 (0.1260) = Some (1134907106097365 * 2 powi (- 53))"
    by (subst fl64_normal [where e = "-3"]) (simp_all add: rne_def)
  show "fl64 (0.3516) = Some (3166931257966933 * 2 powi (- 53))"
    by (subst fl64_normal [where e = "-2"]) (simp_all add: rne_def)
  show "fl64 (0.2843) = Some (160046671757679 * 2 powi (- 49))"
    by (subst fl64_normal [where e = "-2"]) (simp_all add: rne_def)
  show "fl64 (0.1015) = Some (3656922897424843 * 2 powi (- 55))"
    by (subst fl64_normal [where e = "-4"]) (simp_all add: rne_def)
  show "fl64 (5348474917465201 * 2 powi (- 54) - 1134907106097365 * 2 powi (- 53)) = Some (3078660705270471 * 2 powi (- 54))"
    by (subst fl64_normal [where e = "-3"]) (simp_all add: rne_def)
  show "fl64 (3078660705270471 * 2 powi (- 54) - 3166931257966933 * 2 powi (- 53)) = Some (- (3255201810663395 * 2 powi (- 54)))"
    by (subst fl64_normal [where e = "-3"]) (simp_all add: rne_def)
  show "fl64 (- (3255201810663395 * 2 powi (- 54)) + 160046671757679 * 2 powi (- 49)) = Some (1866291685582333 * 2 powi (- 54))"
    by (subst fl64_normal [where e = "-4"]) (simp_all add: rne_def)
  show "fl64 (1866291685582333 * 2 powi (- 54) - 3656922897424843 * 2 powi (- 55)) = Some (75660473739823 * 2 powi (- 55))"
    by (subst fl64_normal [where e = "-9"]) (simp_all add: rne_def)
  show "fl64 (2026619832316723 * 2 powi (- 52) * (75660473739823 * 2 powi (- 55))) = Some (8716086574827609 * 2 powi (- 63))"
    by (subst fl64_normal [where e = "-11"]) (simp_all add: rne_def)
  have "fl64 (8716086574827609 * 2 powi (- 63) * 10) = Some (680944263658407 * 2 powi (- 56))"
    by (subst fl64_normal [where e = "-7"]) (simp_all add: rne_def)
  then show "scale64 [0, 8716086574827609 * 2 powi (- 63)] 10 = [Some 0, Some (680944263658407 * 2 powi (- 56))]"
    by (simp add: scale64_def fl64_zero)
  have "fl64 (8716086574827609 * 2 powi (- 63) * 30) = Some (8171331163900883 * 2 powi (- 58))"
    by (subst fl64_normal [where e = "-6"]) (simp_all add: rne_def)
  then show "scale64 [0, 8716086574827609 * 2 powi (- 63)] 30 = [Some 0, Some (8171331163900883 * 2 powi (- 58))]"
    by (simp add: scale64_def fl64_zero)
  show "8171331163900883 * 2 powi (- 58) \<noteq> 3 * (680944263658407 * 2 powi (- 56) :: real)"
    by simp
  show "fl64 (3 * (680944263658407 * 2 powi (- 56))) = Some (3 * (680944263658407 * 2 powi (- 56)))"
    by (subst fl64_normal [where e = "-6"]) (simp_all add: rne_def)
qed

text \<open>
  C8. For a point count of at least 2 the station fractions are as many as requested, lie
  in \<open>[0, 1]\<close>, never decrease, start at 0 and end at 1.
\<close>

theorem stations_shape:
  assumes "2 \<le> n"
  shows "\<exists>x. stations n = Inr x \<and> length x = nat n \<and> (\<forall>v\<in>set x. 0 \<le> v \<and> v \<le> 1) \<and>
           sorted x \<and> hd x = 0 \<and> last x = 1"
proof -
  obtain N where N: "nat n = Suc N" "0 < N"
    using assms by (cases "nat n") auto
  let ?x = "map (station N) [0..<Suc N]"
  have "stations n = Inr ?x"
    using stations_eq [OF assms] by (simp add: N(1))
  moreover have "length ?x = nat n"
    by (simp add: N(1))
  moreover have "sorted ?x"
    by (rule stations_sorted)
  moreover have "\<forall>v\<in>set ?x. 0 \<le> v \<and> v \<le> 1"
    using station_range by auto
  moreover have "hd ?x = 0"
    by (simp add: hd_map station_first upt_conv_Cons del: upt_Suc)
  moreover have "last ?x = 1"
    using N(2) by (simp add: station_last)
  ultimately show ?thesis
    by blast
qed

theorem stations_shape_witness:
  "(2::int) \<le> 100 \<and>
   (\<exists>x. stations 100 = Inr x \<and> length x = nat 100 \<and> (\<forall>v\<in>set x. 0 \<le> v \<and> v \<le> 1) \<and>
        sorted x \<and> hd x = 0 \<and> last x = 1)"
proof -
  have h: "(2::int) \<le> 100"
    by simp
  show ?thesis
    using h stations_shape [OF h] by blast
qed

text \<open>
  C9. For \<open>"2412"\<close>, chord 100 and 100 points: at index 0 the upper and the lower point
  are within 0.001 of each other and of \<open>x = 0\<close>, and at every interior index the upper
  y-value is strictly above the lower y-value.
\<close>

theorem naca_2412_profile:
  "\<exists>xu yu xl yl.
     naca_4digit_coordinates [50, 52, 49, 50] 100 100 = Inr (xu, yu, xl, yl) \<and>
     length xu = 100 \<and> length yu = 100 \<and> length xl = 100 \<and> length yl = 100 \<and>
     \<bar>xu ! 0 - xl ! 0\<bar> < 0.001 \<and> \<bar>yu ! 0 - yl ! 0\<bar> < 0.001 \<and>
     \<bar>xu ! 0\<bar> < 0.001 \<and> \<bar>xl ! 0\<bar> < 0.001 \<and>
     (\<forall>i. 0 < i \<and> i < 99 \<longrightarrow> yl ! i < yu ! i)"
proof -
  let ?m = "real_of_int 2 / 100" and ?p = "real_of_int 4 / 10" and ?t = "real_of_int 12 / 100"
  let ?xu = "map (\<lambda>i. upper_x ?m ?p ?t 100 (station 99 i)) [0..<Suc 99]"
  let ?yu = "map (\<lambda>i. upper_y ?m ?p ?t 100 (station 99 i)) [0..<Suc 99]"
  let ?xl = "map (\<lambda>i. lower_x ?m ?p ?t 100 (station 99 i)) [0..<Suc 99]"
  let ?yl = "map (\<lambda>i. lower_y ?m ?p ?t 100 (station 99 i)) [0..<Suc 99]"
  have n: "nat 100 = Suc 99" "(0::nat) < 99"
    by simp_all
  have r: "naca_4digit_coordinates [50, 52, 49, 50] 100 100 = Inr (?xu, ?yu, ?xl, ?yl)"
    unfolding naca_of_parse [OF parse_2412] by (rule coordinates_Suc [OF n])
  have len: "length ?xu = 100" "length ?yu = 100" "length ?xl = 100" "length ?yl = 100"
    by simp_all
  have le: "?xu ! 0 = 0" "?yu ! 0 = 0" "?xl ! 0 = 0" "?yl ! 0 = 0"
    by (simp_all only: nth_map_upt_Suc [OF le0] station_first leading_edge_values)
  have int: "?yl ! i < ?yu ! i" if "0 < i \<and> i < 99" for i
  proof -
    have i: "i \<le> 99" "0 < station 99 i" "station 99 i \<le> 1"
      using that station_interior [of i 99] by simp_all
    have "lower_y ?m ?p ?t 100 (station 99 i) < upper_y ?m ?p ?t 100 (station 99 i)"
      using i(2,3) by (intro upper_above_lower) simp_all
    then show ?thesis
      by (simp only: nth_map_upt_Suc [OF i(1)])
  qed
  show ?thesis
    apply (rule exI [of _ ?xu], rule exI [of _ ?yu], rule exI [of _ ?xl], rule exI [of _ ?yl])
    apply (intro conjI allI impI)
             apply (rule r)
            apply (rule len)+
        apply (simp_all only: le int)
       apply simp_all
    done
qed

theorem naca_2412_profile_witness:
  "(0::nat) < 50 \<and> (50::nat) < 99 \<and>
   (\<exists>xu yu xl yl.
     naca_4digit_coordinates [50, 52, 49, 50] 100 100 = Inr (xu, yu, xl, yl) \<and>
     \<bar>xu ! 0 - xl ! 0\<bar> < 0.001 \<and> \<bar>yu ! 0 - yl ! 0\<bar> < 0.001 \<and>
     yl ! 50 < yu ! 50)"
proof -
  have h: "(0::nat) < 50 \<and> (50::nat) < 99"
    by simp
  obtain xu yu xl yl where r:
    "naca_4digit_coordinates [50, 52, 49, 50] 100 100 = Inr (xu, yu, xl, yl)"
    "\<bar>xu ! 0 - xl ! 0\<bar> < 0.001" "\<bar>yu ! 0 - yl ! 0\<bar> < 0.001"
    "\<forall>i. 0 < i \<and> i < 99 \<longrightarrow> yl ! i < yu ! i"
    using naca_2412_profile by blast
  from r(4) h have "yl ! 50 < yu ! 50"
    by blast
  with h r(1,2,3) show ?thesis
    by blast
qed




end
